theory Spec2Isabelle
  imports Main "HOL-Library.Word" "HOL-Library.Log_Nat"
begin

section \<open>Shared vocabulary\<close>

text \<open>
  A Go \<^verbatim>\<open>error\<close> value is modelled by its message.  A Go function either returns or
  panics (index out of range, negative slice length); loops with an early \<^verbatim>\<open>return\<close>
  are recursive functions whose result says whether the loop ran to its end, returned
  early, or panicked.
\<close>

type_synonym error = string

datatype 'r result = Returns 'r | Panics

datatype 's flow = Go_on 's | Ret error 's | Panic 's

section \<open>Go's \<^verbatim>\<open>float64\<close>\<close>

text \<open>
  \<^verbatim>\<open>Init\<close> computes the scale and the delays in \<^verbatim>\<open>float64\<close>.  A \<^verbatim>\<open>float64\<close> is a finite
  binary64 number (a rational), an infinity or a NaN; every arithmetic operation returns
  the exact result rounded to the nearest binary64 number, ties to even (IEEE 754, which
  the Go specification prescribes).  The sign of zero is not modelled: no result of
  \<^verbatim>\<open>Init\<close> depends on it, since every divisor there is converted from an \<^verbatim>\<open>int\<close> or is the
  constant 10.
\<close>

datatype f64 = Fin rat | PInf | NInf | NaN

text \<open>Rounding to the nearest integer, ties to even.\<close>

definition rne :: "rat \<Rightarrow> int" where
  "rne q =
     (let f = \<lfloor>q\<rfloor>; r = q - of_int f
      in if r < 1 / 2 then f
         else if 1 / 2 < r then f + 1
         else if even f then f else f + 1)"

text \<open>For \<open>0 < q\<close>, the exponent \<open>k\<close> with \<open>2 ^ k \<le> q < 2 ^ (k + 1)\<close>.\<close>

definition ilog2 :: "rat \<Rightarrow> int" where
  "ilog2 q =
     (let k = bitlen (fst (quotient_of q)) - bitlen (snd (quotient_of q))
      in if 2 powi k \<le> q then k else k - 1)"

text \<open>
  Rounding a rational to binary64: 53 significant bits, the unit in the last place no
  smaller than \<open>2 ^ - 1074\<close> (subnormal numbers), overflow to an infinity from \<open>2 ^ 1024\<close> on.
\<close>

definition f64_round :: "rat \<Rightarrow> f64" where
  "f64_round q =
     (if q = 0 then Fin 0
      else let e = max (ilog2 \<bar>q\<bar> - 52) (- 1074);
               r = of_int (rne (q / 2 powi e)) * 2 powi e
           in if 2 powi 1024 \<le> \<bar>r\<bar> then (if 0 < q then PInf else NInf) else Fin r)"

text \<open>\<^verbatim>\<open>float64(n)\<close> for an \<^verbatim>\<open>int\<close> \<open>n\<close>.\<close>

definition f64_of_int :: "int \<Rightarrow> f64" where
  "f64_of_int n = f64_round (of_int n)"

fun f64_div :: "f64 \<Rightarrow> f64 \<Rightarrow> f64" where
  "f64_div (Fin a) (Fin b) =
     (if b = 0 then (if a = 0 then NaN else if 0 < a then PInf else NInf)
      else f64_round (a / b))"
| "f64_div (Fin a) PInf = Fin 0"
| "f64_div (Fin a) NInf = Fin 0"
| "f64_div PInf (Fin b) = (if 0 \<le> b then PInf else NInf)"
| "f64_div NInf (Fin b) = (if 0 \<le> b then NInf else PInf)"
| "f64_div PInf PInf = NaN"
| "f64_div PInf NInf = NaN"
| "f64_div NInf PInf = NaN"
| "f64_div NInf NInf = NaN"
| "f64_div NaN y = NaN"
| "f64_div x NaN = NaN"

fun f64_mul :: "f64 \<Rightarrow> f64 \<Rightarrow> f64" where
  "f64_mul (Fin a) (Fin b) = f64_round (a * b)"
| "f64_mul (Fin a) PInf = (if a = 0 then NaN else if 0 < a then PInf else NInf)"
| "f64_mul (Fin a) NInf = (if a = 0 then NaN else if 0 < a then NInf else PInf)"
| "f64_mul PInf (Fin b) = (if b = 0 then NaN else if 0 < b then PInf else NInf)"
| "f64_mul NInf (Fin b) = (if b = 0 then NaN else if 0 < b then NInf else PInf)"
| "f64_mul PInf PInf = PInf"
| "f64_mul PInf NInf = NInf"
| "f64_mul NInf PInf = NInf"
| "f64_mul NInf NInf = PInf"
| "f64_mul NaN y = NaN"
| "f64_mul x NaN = NaN"

text \<open>
  \<^verbatim>\<open>math.Min\<close>: \<open>Min(x, -Inf) = Min(-Inf, x) = -Inf\<close>, \<open>Min(x, NaN) = Min(NaN, x) = NaN\<close>,
  otherwise the smaller one.
\<close>

fun f64_min :: "f64 \<Rightarrow> f64 \<Rightarrow> f64" where
  "f64_min NInf y = NInf"
| "f64_min x NInf = NInf"
| "f64_min NaN y = NaN"
| "f64_min x NaN = NaN"
| "f64_min PInf y = y"
| "f64_min x PInf = x"
| "f64_min (Fin a) (Fin b) = Fin (min a b)"

text \<open>\<^verbatim>\<open>math.Floor\<close> and \<^verbatim>\<open>math.Ceil\<close> are exact and leave infinities and NaN alone.\<close>

fun f64_floor :: "f64 \<Rightarrow> f64" where
  "f64_floor (Fin a) = Fin (of_int \<lfloor>a\<rfloor>)"
| "f64_floor x = x"

fun f64_ceil :: "f64 \<Rightarrow> f64" where
  "f64_ceil (Fin a) = Fin (of_int \<lceil>a\<rceil>)"
| "f64_ceil x = x"

text \<open>
  \<^verbatim>\<open>int(x)\<close> truncates a finite value towards zero.  When the value does not fit Go's
  64-bit \<^verbatim>\<open>int\<close>, or is an infinity or a NaN, the Go specification leaves the result to the
  implementation: it is the parameter \<open>oor\<close> here.
\<close>

definition trunc :: "rat \<Rightarrow> int" where
  "trunc a = (if 0 \<le> a then \<lfloor>a\<rfloor> else \<lceil>a\<rceil>)"

fun f64_to_int :: "(f64 \<Rightarrow> int) \<Rightarrow> f64 \<Rightarrow> int" where
  "f64_to_int oor (Fin a) =
     (if - (2 ^ 63) \<le> trunc a \<and> trunc a < 2 ^ 63 then trunc a else oor (Fin a))"
| "f64_to_int oor x = oor x"

section \<open>Go's \<^verbatim>\<open>int\<close>\<close>

text \<open>
  An \<^verbatim>\<open>int\<close> is a 64-bit two's complement integer, modelled by its value; the products
  and differences computed in \<^verbatim>\<open>Init\<close> wrap around, and \<^verbatim>\<open>/\<close> truncates towards zero.
\<close>

definition wrap64 :: "int \<Rightarrow> int" where
  "wrap64 n = (n + 2 ^ 63) mod 2 ^ 64 - 2 ^ 63"

definition go_div :: "int \<Rightarrow> int \<Rightarrow> int" where
  "go_div a b = (if (a < 0) = (b < 0) then \<bar>a\<bar> div \<bar>b\<bar> else - (\<bar>a\<bar> div \<bar>b\<bar>))"

section \<open>The frame and the assembled image (\<^verbatim>\<open>viz/image.go\<close>, lines 25-49)\<close>

record frame =
  picture :: "8 word list list"
  delay :: int

record Image =
  Filename :: string
  ExportFilename :: string
  LoopCount :: int
  DelayMultiplier :: f64
  UserWidth :: int
  frames :: "frame list"
  h :: int
  w :: int

section \<open>The collaborators of \<^verbatim>\<open>Init\<close>\<close>

text \<open>
  \<^verbatim>\<open>Init\<close> calls the operating system, the decoders of Go's \<^verbatim>\<open>image\<close> packages, the
  \<^verbatim>\<open>tput\<close> command, \<^verbatim>\<open>strconv.Atoi\<close>, the resize library, the palette lookup
  \<^verbatim>\<open>Colors.Index\<close> and \<^verbatim>\<open>draw.Draw\<close>.  None of them is in \<^verbatim>\<open>viz/image.go\<close>; they are
  parameters of the model, collected in one record.  \<open>'img\<close> is the type of decoded
  images and canvases, \<open>'clr\<close> the type of colours.
\<close>

text \<open>The parts of \<^verbatim>\<open>gif.GIF\<close> that \<^verbatim>\<open>Init\<close> reads.\<close>

record 'img GIF =
  gImage :: "'img list"
  gDelay :: "int list"
  gDisposal :: "8 word list"
  gWidth :: int
  gHeight :: int

definition DisposalNone :: "8 word" where
  "DisposalNone = 1"

definition DisposalBackground :: "8 word" where
  "DisposalBackground = 2"

definition DisposalPrevious :: "8 word" where
  "DisposalPrevious = 3"

record ('img, 'clr) extern =
  os_Open :: "string \<Rightarrow> error option"
    \<comment> \<open>does opening this path fail\<close>
  image_Decode :: "string \<Rightarrow> error + ('img \<times> string)"
    \<comment> \<open>\<^verbatim>\<open>image.Decode\<close> on the file at this path: an error, or the picture and its format\<close>
  gif_DecodeAll :: "string \<Rightarrow> error + 'img GIF"
  bounds_Max :: "'img \<Rightarrow> int \<times> int"
    \<comment> \<open>\<^verbatim>\<open>Bounds().Max\<close>\<close>
  run_tput :: "string \<Rightarrow> error + string list"
    \<comment> \<open>\<^verbatim>\<open>util.RunCommand(stdout, "tput", cmd)\<close>: an error, or the lines in \<^verbatim>\<open>stdout.Output\<close>\<close>
  strconv_Atoi :: "string \<Rightarrow> error + int"
  resize_Resize :: "int \<Rightarrow> int \<Rightarrow> 'img \<Rightarrow> 'img"
  image_At :: "'img \<Rightarrow> int \<Rightarrow> int \<Rightarrow> 'clr"
  Colors_Index :: "'clr \<Rightarrow> int"
  image_NewRGBA :: "int \<Rightarrow> int \<Rightarrow> 'img"
    \<comment> \<open>\<^verbatim>\<open>image.NewRGBA(image.Rect(0, 0, iw, ih))\<close>: a fresh transparent canvas\<close>
  draw_Over :: "'img \<Rightarrow> 'img \<Rightarrow> 'img"
    \<comment> \<open>the pixels of the first image after \<^verbatim>\<open>draw.Draw(dst, dst.Bounds(), src, image.ZP, draw.Over)\<close>\<close>
  int_of_f64 :: "f64 \<Rightarrow> int"
    \<comment> \<open>the implementation's \<^verbatim>\<open>int(x)\<close> where the Go specification leaves it open\<close>

text \<open>
  The open file handles are part of the state: \<^verbatim>\<open>os.Open\<close> hands out a fresh handle,
  \<^verbatim>\<open>Close\<close> releases it.
\<close>

record world =
  next_handle :: nat
  open_handles :: "nat list"

definition os_open :: "('img, 'clr) extern \<Rightarrow> string \<Rightarrow> world \<Rightarrow> (error + nat) \<times> world" where
  "os_open ext name wl =
     (case os_Open ext name of
        Some e \<Rightarrow> (Inl e, wl)
      | None \<Rightarrow>
          (Inr (next_handle wl),
           wl\<lparr>next_handle := Suc (next_handle wl),
              open_handles := open_handles wl @ [next_handle wl]\<rparr>))"

definition file_Close :: "nat \<Rightarrow> world \<Rightarrow> world" where
  "file_Close file wl = wl\<lparr>open_handles := removeAll file (open_handles wl)\<rparr>"

section \<open>\<^verbatim>\<open>Image.Init\<close> (lines 53-167)\<close>

text \<open>The closure \<^verbatim>\<open>tput\<close> (lines 73-88): the value and the error it returns.\<close>

definition tput :: "('img, 'clr) extern \<Rightarrow> string \<Rightarrow> int \<times> error option" where
  "tput ext cmd =
     (case run_tput ext cmd of
        Inl e \<Rightarrow> (- 1, Some (''couldn't determine '' @ cmd @ '': '' @ e))
      | Inr out \<Rightarrow>
          if length out \<noteq> 1 then (- 1, Some (''unexpected output when determining '' @ cmd))
          else (case strconv_Atoi ext (out ! 0) of
                  Inl e \<Rightarrow> (- 1, Some (''couldn't parse '' @ cmd @ '': '' @ e))
                | Inr op \<Rightarrow> (op, None)))"

text \<open>Lines 69-106: the scale, or the error of a failed terminal query.\<close>

definition Init_scale ::
  "('img, 'clr) extern \<Rightarrow> Image \<Rightarrow> string \<Rightarrow> int \<Rightarrow> int \<Rightarrow> error + f64" where
  "Init_scale ext img imgFmt iw ih =
     (if 0 < UserWidth img then Inr (f64_div (f64_of_int (UserWidth img)) (f64_of_int iw))
      else
        (case (if imgFmt \<noteq> ''gif'' \<or> LoopCount img = 0 then tput ext ''cols'' else (40, None)) of
           (tw, Some e) \<Rightarrow> Inl e
         | (tw, None) \<Rightarrow>
             (case tput ext ''lines'' of
                (th0, Some e) \<Rightarrow> Inl e
              | (th0, None) \<Rightarrow>
                  (let th = wrap64 (wrap64 (th0 * 2) - 1)
                   in if tw < iw \<or> th < ih
                      then Inr (f64_min (f64_div (f64_of_int tw) (f64_of_int iw))
                                        (f64_div (f64_of_int th) (f64_of_int ih)))
                      else Inr (Fin 1)))))"

text \<open>Lines 108-110: the resolved width and height.\<close>

definition Init_size :: "('img, 'clr) extern \<Rightarrow> f64 \<Rightarrow> int \<Rightarrow> int \<Rightarrow> int \<times> int" where
  "Init_size ext scale iw ih =
     (f64_to_int (int_of_f64 ext) (f64_floor (f64_mul scale (f64_of_int iw))),
      go_div (f64_to_int (int_of_f64 ext) (f64_floor (f64_mul scale (f64_of_int ih)))) 2)"

text \<open>
  The closure \<^verbatim>\<open>appendImg\<close> (lines 113-129).  The index buffer has \<^verbatim>\<open>img.w\<close> columns of
  \<^verbatim>\<open>img.h\<close> entries; \<^verbatim>\<open>make\<close> panics on a negative length.
\<close>

definition quantize :: "('img, 'clr) extern \<Rightarrow> int \<Rightarrow> int \<Rightarrow> 'img \<Rightarrow> 8 word list list" where
  "quantize ext wd ht f =
     (let scaled = resize_Resize ext wd ht f
      in map (\<lambda>x. map (\<lambda>y. word_of_int (Colors_Index ext (image_At ext scaled (int x) (int y))))
                      [0..<nat ht])
             [0..<nat wd])"

definition render_delay :: "('img, 'clr) extern \<Rightarrow> f64 \<Rightarrow> int \<Rightarrow> int" where
  "render_delay ext mult delayMS =
     f64_to_int (int_of_f64 ext) (f64_ceil (f64_mul (f64_div (f64_of_int delayMS) (Fin 10)) mult))"

definition appendImg :: "('img, 'clr) extern \<Rightarrow> Image \<Rightarrow> 'img \<Rightarrow> int \<Rightarrow> Image result" where
  "appendImg ext img f delayMS =
     (if w img < 0 \<or> (0 < w img \<and> h img < 0) then Panics
      else Returns
             (img\<lparr>frames := frames img
                     @ [\<lparr>picture = quantize ext (w img) (h img) f,
                         delay = render_delay ext (DelayMultiplier img) delayMS\<rparr>]\<rparr>))"

text \<open>
  The loop over the frames of the animation (lines 145-159).  \<^verbatim>\<open>canvas\<close> and \<^verbatim>\<open>prev\<close> are
  pointers to \<^verbatim>\<open>image.RGBA\<close> objects, and \<^verbatim>\<open>draw.Draw\<close> writes into the object \<^verbatim>\<open>canvas\<close>
  points to: the objects live in a store, a list indexed by address.
  \<^verbatim>\<open>prev = &(*canvas)\<close> copies the pointer, not the pixels.
\<close>

record 'img compositor =
  cimg :: Image
  store :: "'img list"
  canvas :: nat
  prev :: "nat option"

fun gif_loop ::
  "('img, 'clr) extern \<Rightarrow> 'img GIF \<Rightarrow> int \<Rightarrow> int \<Rightarrow> nat list \<Rightarrow> 'img compositor
     \<Rightarrow> 'img compositor result" where
  "gif_loop ext g iw ih [] st = Returns st"
| "gif_loop ext g iw ih (i # rest) st =
     (let drawn = (store st)[canvas st := draw_Over ext (store st ! canvas st) (gImage g ! i)]
      in if \<not> i < length (gDelay g) then Panics
         else
           (case appendImg ext (cimg st) (drawn ! canvas st) (wrap64 (gDelay g ! i * 10)) of
              Panics \<Rightarrow> Panics
            | Returns img1 \<Rightarrow>
                if \<not> i < length (gDisposal g) then Panics
                else if gDisposal g ! i = DisposalBackground
                then gif_loop ext g iw ih rest
                       \<lparr>cimg = img1, store = drawn @ [image_NewRGBA ext iw ih],
                        canvas = length drawn, prev = Some (length drawn)\<rparr>
                else if gDisposal g ! i = DisposalNone
                then gif_loop ext g iw ih rest
                       \<lparr>cimg = img1, store = drawn, canvas = canvas st, prev = Some (canvas st)\<rparr>
                else if gDisposal g ! i = DisposalPrevious
                then (case prev st of
                        Some p \<Rightarrow>
                          gif_loop ext g iw ih rest
                            \<lparr>cimg = img1, store = drawn, canvas = p, prev = prev st\<rparr>
                      | None \<Rightarrow>
                          gif_loop ext g iw ih rest
                            \<lparr>cimg = img1, store = drawn, canvas = canvas st, prev = prev st\<rparr>)
                else gif_loop ext g iw ih rest
                       \<lparr>cimg = img1, store = drawn, canvas = canvas st, prev = prev st\<rparr>))"

text \<open>
  \<^verbatim>\<open>Init\<close>.  It returns its error, the image as it has left it and the state of the file
  handles, or it panics.
\<close>

definition Init ::
  "('img, 'clr) extern \<Rightarrow> Image \<Rightarrow> world \<Rightarrow> (error option \<times> Image \<times> world) result" where
  "Init ext img wl =
     (case os_open ext (Filename img) wl of
        (Inl e, wl1) \<Rightarrow> Returns (Some e, img, wl1)
      | (Inr file, wl1) \<Rightarrow>
          (case image_Decode ext (Filename img) of
             Inl e \<Rightarrow> Returns (Some e, img, wl1)
           | Inr (firstFrame, imgFmt) \<Rightarrow>
               (let wl2 = file_Close file wl1;
                    iw = fst (bounds_Max ext firstFrame);
                    ih = snd (bounds_Max ext firstFrame)
                in case Init_scale ext img imgFmt iw ih of
                     Inl e \<Rightarrow> Returns (Some e, img, wl2)
                   | Inr scale \<Rightarrow>
                       (let img1 = img\<lparr>w := fst (Init_size ext scale iw ih),
                                      h := snd (Init_size ext scale iw ih)\<rparr>
                        in if imgFmt = ''gif'' \<and> 0 < LoopCount img1
                           then
                             (case os_open ext (Filename img1) wl2 of
                                (Inl e, wl3) \<Rightarrow> Returns (Some e, img1, wl3)
                              | (Inr file2, wl3) \<Rightarrow>
                                  (case gif_DecodeAll ext (Filename img1) of
                                     Inl e \<Rightarrow> Returns (Some e, img1, wl3)
                                   | Inr g \<Rightarrow>
                                       (case gif_loop ext g (gWidth g) (gHeight g)
                                               [0..<length (gImage g)]
                                               \<lparr>cimg = img1,
                                                store = [image_NewRGBA ext (gWidth g) (gHeight g)],
                                                canvas = 0, prev = None\<rparr> of
                                          Panics \<Rightarrow> Panics
                                        | Returns st \<Rightarrow>
                                            Returns (None, cimg st, file_Close file2 wl3))))
                           else
                             (case appendImg ext (img1\<lparr>LoopCount := 1\<rparr>) firstFrame 0 of
                                Panics \<Rightarrow> Panics
                              | Returns img2 \<Rightarrow> Returns (None, img2, wl2))))))"

section \<open>The renderer: \<^verbatim>\<open>Image.Draw\<close> (lines 171-198)\<close>

text \<open>
  The \<^verbatim>\<open>Writer\<close> interface has four methods, each returning an error.  A writer over a
  sink state \<open>'s\<close> is a record of four state transformers; \<open>None\<close> is Go's \<^verbatim>\<open>nil\<close> error.
\<close>

record 's Writer =
  Write :: "string \<Rightarrow> 's \<Rightarrow> error option \<times> 's"
  LineUp :: "int \<Rightarrow> 's \<Rightarrow> error option \<times> 's"
  Sleep :: "int \<Rightarrow> 's \<Rightarrow> error option \<times> 's"
  Close :: "'s \<Rightarrow> error option \<times> 's"

text \<open>\<^verbatim>\<open>%v\<close> of a \<^verbatim>\<open>uint8\<close>: its decimal digits, without leading zeros.\<close>

definition digit :: "nat \<Rightarrow> char" where
  "digit d = char_of (48 + d)"

definition fmt_uint8 :: "8 word \<Rightarrow> string" where
  "fmt_uint8 v =
     (let n = unat v
      in (if 100 \<le> n then [digit (n div 100)] else [])
         @ (if 10 \<le> n then [digit (n div 10 mod 10)] else [])
         @ [digit (n mod 10)])"

text \<open>\<^verbatim>\<open>fmt.Sprintf("\x1b[48;5;%vm \x1b[0m", v)\<close>\<close>

definition cell :: "8 word \<Rightarrow> string" where
  "cell v = CHR 0x1B # ''[48;5;'' @ fmt_uint8 v @ ''m '' @ CHR 0x1B # ''[0m''"

definition newline :: string where
  "newline = [CHR 0x0A]"

text \<open>
  The loop over \<open>x\<close> (lines 185-187).  \<^verbatim>\<open>frame.picture[x][y]\<close> panics when an index is out
  of range.  The error returned by the per-pixel \<^verbatim>\<open>writer.Write\<close> is not looked at:
  only the new sink state is kept.
\<close>

fun draw_row :: "'s Writer \<Rightarrow> 8 word list list \<Rightarrow> nat \<Rightarrow> nat list \<Rightarrow> 's \<Rightarrow> 's flow" where
  "draw_row wr pic y [] s = Go_on s"
| "draw_row wr pic y (x # xs) s =
     (if x < length pic \<and> y < length (pic ! x)
      then draw_row wr pic y xs (snd (Write wr (cell (pic ! x ! y)) s))
      else Panic s)"

text \<open>The loop over \<open>y\<close> (lines 184-192): one row, then the line terminator, whose error is returned.\<close>

fun draw_rows :: "'s Writer \<Rightarrow> 8 word list list \<Rightarrow> int \<Rightarrow> nat list \<Rightarrow> 's \<Rightarrow> 's flow" where
  "draw_rows wr pic wd [] s = Go_on s"
| "draw_rows wr pic wd (y # ys) s =
     (case draw_row wr pic y [0..<nat wd] s of
        Go_on s1 \<Rightarrow>
          (case Write wr newline s1 of
             (Some e, s2) \<Rightarrow> Ret e s2
           | (None, s2) \<Rightarrow> draw_rows wr pic wd ys s2)
      | Ret e s1 \<Rightarrow> Ret e s1
      | Panic s1 \<Rightarrow> Panic s1)"

text \<open>
  The loop over the frames (lines 175-195).  The local variables \<^verbatim>\<open>firstFrameDone\<close> and
  \<^verbatim>\<open>delay\<close> travel with the sink state.
\<close>

fun draw_frames ::
  "'s Writer \<Rightarrow> int \<Rightarrow> int \<Rightarrow> frame list \<Rightarrow> bool \<times> int \<times> 's \<Rightarrow> (bool \<times> int \<times> 's) flow" where
  "draw_frames wr wd ht [] st = Go_on st"
| "draw_frames wr wd ht (fr # frs) (firstFrameDone, dl, s) =
     (case (if firstFrameDone
            then (case LineUp wr ht s of
                    (Some e, s1) \<Rightarrow> Ret e s1
                  | (None, s1) \<Rightarrow>
                      (case Sleep wr dl s1 of
                         (Some e, s2) \<Rightarrow> Ret e s2
                       | (None, s2) \<Rightarrow> Go_on s2))
            else Go_on s) of
        Go_on s3 \<Rightarrow>
          (case draw_rows wr (picture fr) wd [0..<nat ht] s3 of
             Go_on s4 \<Rightarrow> draw_frames wr wd ht frs (True, delay fr, s4)
           | Ret e s4 \<Rightarrow> Ret e (True, dl, s4)
           | Panic s4 \<Rightarrow> Panic (True, dl, s4))
      | Ret e s3 \<Rightarrow> Ret e (firstFrameDone, dl, s3)
      | Panic s3 \<Rightarrow> Panic (firstFrameDone, dl, s3))"

text \<open>The loop \<^verbatim>\<open>for i := 0; i < img.LoopCount; i++\<close> (line 174), by the number of passes left.\<close>

fun draw_loops ::
  "'s Writer \<Rightarrow> int \<Rightarrow> int \<Rightarrow> frame list \<Rightarrow> nat \<Rightarrow> bool \<times> int \<times> 's \<Rightarrow> (bool \<times> int \<times> 's) flow" where
  "draw_loops wr wd ht frs 0 st = Go_on st"
| "draw_loops wr wd ht frs (Suc n) st =
     (case draw_frames wr wd ht frs st of
        Go_on st1 \<Rightarrow> draw_loops wr wd ht frs n st1
      | Ret e st1 \<Rightarrow> Ret e st1
      | Panic st1 \<Rightarrow> Panic st1)"

text \<open>\<^verbatim>\<open>Draw\<close>: the loops, then \<^verbatim>\<open>return writer.Close()\<close>.\<close>

definition Draw :: "'s Writer \<Rightarrow> Image \<Rightarrow> 's \<Rightarrow> error option result \<times> 's" where
  "Draw wr img s =
     (case draw_loops wr (w img) (h img) (frames img) (nat (LoopCount img)) (False, 0, s) of
        Go_on (_, _, s1) \<Rightarrow> (case Close wr s1 of (e, s2) \<Rightarrow> (Returns e, s2))
      | Ret e (_, _, s1) \<Rightarrow> (Returns (Some e), s1)
      | Panic (_, _, s1) \<Rightarrow> (Panics, s1))"

subsection \<open>A recording sink\<close>

text \<open>
  A sink that appends every call to a log.  Whether a call fails is decided by its
  position in the log: \<open>fails n\<close> is the error of the call number \<open>n\<close>, if any.
\<close>

datatype sink_op = OpWrite string | OpLineUp int | OpSleep int | OpClose

definition recorder :: "(nat \<Rightarrow> error option) \<Rightarrow> sink_op list Writer" where
  "recorder fails =
     \<lparr>Write = (\<lambda>t log. (fails (length log), log @ [OpWrite t])),
      LineUp = (\<lambda>n log. (fails (length log), log @ [OpLineUp n])),
      Sleep = (\<lambda>n log. (fails (length log), log @ [OpSleep n])),
      Close = (\<lambda>log. (fails (length log), log @ [OpClose]))\<rparr>"

definition never :: "nat \<Rightarrow> error option" where
  "never n = None"

text \<open>
  What drawing one frame means for the sink: row by row, one cell per pixel of the row,
  then the line terminator.
\<close>

definition frame_ops :: "int \<Rightarrow> int \<Rightarrow> 8 word list list \<Rightarrow> sink_op list" where
  "frame_ops wd ht pic =
     concat (map (\<lambda>y. map (\<lambda>x. OpWrite (cell (pic ! x ! y))) [0..<nat wd] @ [OpWrite newline])
                 [0..<nat ht])"

text \<open>An index buffer of \<open>wd\<close> columns, each of \<open>ht\<close> entries.\<close>

definition has_size :: "int \<Rightarrow> int \<Rightarrow> 8 word list list \<Rightarrow> bool" where
  "has_size wd ht pic \<longleftrightarrow> int (length pic) = wd \<and> (\<forall>col \<in> set pic. int (length col) = ht)"

section \<open>A small instance of the collaborators\<close>

text \<open>
  For evaluating \<^verbatim>\<open>Init\<close> on concrete inputs: a picture is its \<^verbatim>\<open>Bounds().Max\<close> and a
  pixel function into an optional palette index (\<open>None\<close> is a transparent pixel);
  \<^verbatim>\<open>draw.Over\<close> replaces the destination where the source pixel is defined, the resize
  returns the picture as it is, every file opens, \<^verbatim>\<open>Atoi\<close> reads unsigned decimals, and
  \<^verbatim>\<open>int(x)\<close> of a value out of range is the smallest \<^verbatim>\<open>int\<close>, as on amd64.
\<close>

record raster =
  rmax :: "int \<times> int"
  rpixel :: "int \<Rightarrow> int \<Rightarrow> nat option"

definition solid :: "int \<Rightarrow> int \<Rightarrow> nat \<Rightarrow> raster" where
  "solid wd ht c =
     \<lparr>rmax = (wd, ht),
      rpixel = (\<lambda>x y. if 0 \<le> x \<and> x < wd \<and> 0 \<le> y \<and> y < ht then Some c else None)\<rparr>"

definition atoi_digits :: "string \<Rightarrow> error + int" where
  "atoi_digits s =
     (if s \<noteq> [] \<and> list_all (\<lambda>c. (48 :: nat) \<le> of_char c \<and> of_char c \<le> (57 :: nat)) s
      then Inr (foldl (\<lambda>a c. 10 * a + (of_char c - 48)) 0 s)
      else Inl ''invalid syntax'')"

definition test_ext ::
  "(string \<Rightarrow> error + (raster \<times> string)) \<Rightarrow> (string \<Rightarrow> error + raster GIF)
     \<Rightarrow> (string \<Rightarrow> error + string list) \<Rightarrow> (raster, nat option) extern" where
  "test_ext dec decall term =
     \<lparr>os_Open = (\<lambda>name. None),
      image_Decode = dec,
      gif_DecodeAll = decall,
      bounds_Max = rmax,
      run_tput = term,
      strconv_Atoi = atoi_digits,
      resize_Resize = (\<lambda>wd ht r. r),
      image_At = rpixel,
      Colors_Index = (\<lambda>c. case c of None \<Rightarrow> 0 | Some n \<Rightarrow> int n),
      image_NewRGBA = (\<lambda>wd ht. \<lparr>rmax = (wd, ht), rpixel = (\<lambda>x y. None)\<rparr>),
      draw_Over = (\<lambda>dst src. dst\<lparr>rpixel := (\<lambda>x y. case rpixel src x y of
                                                     Some c \<Rightarrow> Some c
                                                   | None \<Rightarrow> rpixel dst x y)\<rparr>),
      int_of_f64 = (\<lambda>x. - (2 ^ 63))\<rparr>"

definition term_200_50 :: "string \<Rightarrow> error + string list" where
  "term_200_50 cmd = (if cmd = ''cols'' then Inr [''200''] else Inr [''50''])"

definition img0 :: Image where
  "img0 = \<lparr>Filename = ''a'', ExportFilename = [], LoopCount = 1, DelayMultiplier = Fin 1,
           UserWidth = 0, frames = [], h = 0, w = 0\<rparr>"

definition world0 :: world where
  "world0 = \<lparr>next_handle = 0, open_handles = []\<rparr>"

definition no_gif :: "string \<Rightarrow> error + raster GIF" where
  "no_gif name = Inl ''gif: not a gif''"

text \<open>Inputs for the evaluations below.\<close>

definition png_3x4 :: "string \<Rightarrow> error + (raster \<times> string)" where
  "png_3x4 name = Inr (solid 3 4 7, ''png'')"

definition png_154x10 :: "string \<Rightarrow> error + (raster \<times> string)" where
  "png_154x10 name = Inr (solid 154 10 7, ''png'')"

definition not_an_image :: "string \<Rightarrow> error + (raster \<times> string)" where
  "not_an_image name = Inl ''image: unknown format''"

definition gif_100x10 :: "string \<Rightarrow> error + (raster \<times> string)" where
  "gif_100x10 name = Inr (solid 100 10 7, ''gif'')"

definition frames_100x10 :: "string \<Rightarrow> error + raster GIF" where
  "frames_100x10 name =
     Inr \<lparr>gImage = [solid 100 10 7], gDelay = [10], gDisposal = [DisposalNone],
          gWidth = 100, gHeight = 10\<rparr>"

definition gif_2x2 :: "string \<Rightarrow> error + (raster \<times> string)" where
  "gif_2x2 name = Inr (solid 2 2 1, ''gif'')"

text \<open>One frame that fills the canvas.\<close>

definition one_frame :: "raster GIF" where
  "one_frame =
     \<lparr>gImage = [solid 2 2 1], gDelay = [10], gDisposal = [DisposalNone],
      gWidth = 2, gHeight = 2\<rparr>"

text \<open>
  A frame that fills the canvas with colour 1 and asks for the background, then a frame
  that covers the left column with colour 2.
\<close>

definition background_then_none :: "raster GIF" where
  "background_then_none =
     \<lparr>gImage = [solid 2 2 1, solid 1 2 2], gDelay = [10, 20],
      gDisposal = [DisposalBackground, DisposalNone], gWidth = 2, gHeight = 2\<rparr>"

text \<open>
  A frame that fills the canvas with colour 1 and is left as it is, a frame that covers
  the left column with colour 2 and asks for the previous canvas, and a frame without any
  pixel.
\<close>

definition none_then_previous :: "raster GIF" where
  "none_then_previous =
     \<lparr>gImage = [solid 2 2 1, solid 1 2 2, solid 0 0 3], gDelay = [10, 10, 10],
      gDisposal = [DisposalNone, DisposalPrevious, DisposalNone], gWidth = 2, gHeight = 2\<rparr>"



text \<open>The resolved size after an \<^verbatim>\<open>Init\<close> that returned \<^verbatim>\<open>nil\<close>.\<close>

definition resolved :: "(error option \<times> Image \<times> world) result \<Rightarrow> (int \<times> int) option" where
  "resolved r = (case r of Returns (None, img, wl) \<Rightarrow> Some (w img, h img) | _ \<Rightarrow> None)"

section \<open>Properties of the \<^verbatim>\<open>float64\<close> operations\<close>

lemma rne_of_int: "rne (of_int z) = z"
  by (simp add: rne_def)

lemma rne_ge_floor: "\<lfloor>q\<rfloor> \<le> rne q"
  by (simp add: rne_def Let_def)

lemma rne_le_ceiling: "rne q \<le> \<lceil>q\<rceil>"
proof -
  have "\<lfloor>q\<rfloor> + 1 \<le> \<lceil>q\<rceil>" if "q - of_int \<lfloor>q\<rfloor> \<noteq> 0"
    using that by (metis ceiling_altdef diff_self order_refl)
  moreover have "q - of_int \<lfloor>q\<rfloor> \<noteq> 0" if "\<not> q - of_int \<lfloor>q\<rfloor> < 1 / 2"
    using that by auto
  ultimately show ?thesis
    by (auto simp: rne_def Let_def intro: floor_le_ceiling)
qed

lemma ilog2_le:
  assumes "0 < q"
  shows "2 powi (ilog2 q) \<le> q"
proof -
  obtain n d where nd: "quotient_of q = (n, d)"
    by (cases "quotient_of q")
  have d: "0 < d" using nd by (rule quotient_of_denom_pos)
  have q: "q = of_int n / of_int d" using nd by (rule quotient_of_div)
  have n: "0 < n" using assms d q by (simp add: zero_less_divide_iff)
  define a b where "a = bitlen n" and "b = bitlen d"
  have a1: "1 \<le> a" and b1: "1 \<le> b"
    using n d bitlen_eq_zero_iff [of n] bitlen_eq_zero_iff [of d] bitlen_nonneg [of n] bitlen_nonneg [of d]
    by (auto simp: a_def b_def)
  have nlow: "(2::rat) powi (a - 1) \<le> of_int n"
  proof -
    have "2 ^ nat (a - 1) \<le> n" using bitlen_bounds [OF n] by (simp add: a_def)
    then have "(of_int (2 ^ nat (a - 1)) :: rat) \<le> of_int n" by (simp only: of_int_le_iff)
    then show ?thesis using a1 by (simp add: power_int_def)
  qed
  have dup: "(of_int d :: rat) \<le> 2 powi b"
  proof -
    have "d < 2 ^ nat b" using bitlen_bounds [OF d] by (simp add: b_def)
    then have "(of_int d :: rat) < of_int (2 ^ nat b)" by (simp only: of_int_less_iff)
    then show ?thesis using b1 by (simp add: power_int_def)
  qed
  have "(2::rat) powi (a - b - 1) * of_int d \<le> 2 powi (a - b - 1) * 2 powi b"
    by (intro mult_left_mono dup) simp
  also have "\<dots> = 2 powi (a - 1)"
    by (simp flip: power_int_add)
  also have "\<dots> \<le> of_int n" by (rule nlow)
  finally have low: "(2::rat) powi (a - b - 1) \<le> q"
    using d by (simp add: q pos_le_divide_eq)
  show ?thesis
    using low nd by (simp add: ilog2_def Let_def a_def b_def)
qed

lemma ilog2_less:
  assumes "0 < q" and "q < 2 powi j"
  shows "ilog2 q < j"
proof (rule ccontr)
  assume "\<not> ilog2 q < j"
  then have "(2::rat) powi j \<le> 2 powi (ilog2 q)"
    by (intro power_int_increasing) simp_all
  with ilog2_le [OF assms(1)] assms(2) show False by simp
qed






lemma f64_round_bounds:
  assumes "0 \<le> q" and "q \<le> of_int (M * 2 ^ k)" and "M < 2 ^ 53" and "k \<le> 971"
  shows "\<exists>r. f64_round q = Fin r \<and> 0 \<le> r \<and> r \<le> of_int (M * 2 ^ k)"
proof (cases "q = 0")
  case True
  then show ?thesis using assms by (simp add: f64_round_def)
next
  case False
  then have qpos: "0 < q" using assms(1) by simp
  define e where "e = max (ilog2 q - 52) (- 1074)"
  define r where "r = (of_int (rne (q / 2 powi e)) :: rat) * 2 powi e"
  have Mlt: "(of_int (M * 2 ^ k) :: rat) < 2 powi (53 + int k)"
  proof -
    have "M * 2 ^ k < 2 ^ 53 * 2 ^ k" using assms(3) by simp
    then have "(of_int (M * 2 ^ k) :: rat) < of_int (2 ^ 53 * 2 ^ k)" by (simp only: of_int_less_iff)
    then show ?thesis by (simp add: power_int_add)
  qed
  then have "q < 2 powi (53 + int k)" using assms(2) by simp
  then have "ilog2 q < 53 + int k" by (rule ilog2_less [OF qpos])
  then have ek: "e \<le> int k" by (simp add: e_def)
  have p: "(0::rat) < 2 powi e" by simp
  have scaled: "(of_int (M * 2 ^ k) :: rat) / 2 powi e = of_int (M * 2 ^ nat (int k - e))"
  proof -
    have "(of_int (M * 2 ^ k) :: rat) / 2 powi e = of_int M * 2 powi (int k - e)"
      by (simp add: power_int_diff)
    also have "(2::rat) powi (int k - e) = 2 ^ nat (int k - e)"
      using ek by (simp add: power_int_def)
    finally show ?thesis by simp
  qed
  have "rne (q / 2 powi e) \<le> \<lceil>q / 2 powi e\<rceil>" by (rule rne_le_ceiling)
  also have "\<dots> \<le> \<lceil>(of_int (M * 2 ^ k) :: rat) / 2 powi e\<rceil>"
    using assms(2) p by (intro ceiling_mono divide_right_mono) simp_all
  also have "\<dots> = M * 2 ^ nat (int k - e)" unfolding scaled by (rule ceiling_of_int)
  finally have "(of_int (rne (q / 2 powi e)) :: rat) \<le> of_int (M * 2 ^ nat (int k - e))"
    by (simp only: of_int_le_iff)
  then have "r \<le> (of_int (M * 2 ^ k) / 2 powi e) * 2 powi e"
    unfolding r_def scaled using p by (intro mult_right_mono) simp_all
  then have up: "r \<le> of_int (M * 2 ^ k)" by simp
  have "0 \<le> \<lfloor>q / 2 powi e\<rfloor>" using assms(1) by simp
  then have "0 \<le> rne (q / 2 powi e)" using rne_ge_floor [of "q / 2 powi e"] by linarith
  then have low: "0 \<le> r" by (simp add: r_def)
  have "r < 2 powi 1024"
  proof -
    have "(2::rat) powi (53 + int k) \<le> 2 powi 1024"
      using assms(4) by (intro power_int_increasing) simp_all
    then show ?thesis using up Mlt by linarith
  qed
  then have "\<not> 2 powi 1024 \<le> \<bar>r\<bar>" using low by simp
  then have "f64_round q = Fin r"
    using False qpos unfolding f64_round_def Let_def r_def e_def by simp
  then show ?thesis using low up by blast
qed


lemma f64_round_nat:
  assumes "0 \<le> n" and "n < 2 ^ 53"
  shows "f64_round (of_int n) = Fin (of_int n)"
proof (cases "n = 0")
  case True
  then show ?thesis by (simp add: f64_round_def)
next
  case False
  define q :: rat where "q = of_int n"
  have qpos: "0 < q" using assms(1) False by (simp add: q_def)
  define e where "e = max (ilog2 q - 52) (- 1074)"
  have "q < 2 powi 53"
  proof -
    have "(of_int n :: rat) < of_int (2 ^ 53)" using assms(2) by (simp only: of_int_less_iff)
    then show ?thesis by (simp add: q_def)
  qed
  then have "ilog2 q < 53" by (rule ilog2_less [OF qpos])
  then have e0: "e \<le> 0" by (simp add: e_def)
  have scaled: "q / 2 powi e = of_int (n * 2 ^ nat (- e))"
    using e0 by (simp add: q_def power_int_def field_simps)
  have r: "(of_int (rne (q / 2 powi e)) :: rat) * 2 powi e = q"
    unfolding scaled rne_of_int using e0 by (simp add: q_def power_int_def field_simps)
  have "q < 2 powi 1024"
  proof -
    have "(of_int n :: rat) < of_int (2 ^ 53)" using assms(2) by (simp only: of_int_less_iff)
    also have "\<dots> \<le> 2 powi 1024" by simp
    finally show ?thesis by (simp add: q_def)
  qed
  then have "\<not> 2 powi 1024 \<le> \<bar>q\<bar>" using qpos by simp
  then have "f64_round q = Fin q"
    using qpos unfolding f64_round_def Let_def
    by (simp add: r [unfolded e_def])
  then show ?thesis by (simp add: q_def)
qed

text \<open>
  The overflow test of \<open>f64_round\<close> on integers, for evaluation: the comparison with
  \<open>2 ^ 1024\<close> is cheaper there than on rationals.
\<close>

lemma overflow_test:
  "(2 powi 1024 \<le> \<bar>(of_int m :: rat) * 2 powi e\<bar>)
     = (if 0 \<le> e then 2 ^ 1024 \<le> \<bar>m\<bar> * 2 ^ nat e else 2 ^ 1024 * 2 ^ nat (- e) \<le> \<bar>m\<bar>)"
proof (cases "0 \<le> e")
  case True
  then have "\<bar>(of_int m :: rat) * 2 powi e\<bar> = of_int (\<bar>m\<bar> * 2 ^ nat e)"
    by (simp add: power_int_def abs_mult)
  moreover have "(2::rat) powi 1024 = of_int (2 ^ 1024)" by simp
  ultimately show ?thesis using True by (simp only: of_int_le_iff if_True)
next
  case False
  then have "\<bar>(of_int m :: rat) * 2 powi e\<bar> = of_int \<bar>m\<bar> / of_int (2 ^ nat (- e))"
    by (simp add: power_int_def abs_mult field_simps)
  moreover have "(2::rat) powi 1024 = of_int (2 ^ 1024)" by simp
  moreover have "((of_int (2 ^ 1024) :: rat) \<le> of_int \<bar>m\<bar> / of_int (2 ^ nat (- e)))
                   = ((of_int (2 ^ 1024 * 2 ^ nat (- e)) :: rat) \<le> of_int \<bar>m\<bar>)"
    by (simp add: pos_le_divide_eq)
  ultimately show ?thesis using False by (simp only: of_int_le_iff if_False)
qed

lemma f64_round_code [code]:
  "f64_round q =
     (if q = 0 then Fin 0
      else let e = max (ilog2 \<bar>q\<bar> - 52) (- 1074);
               m = rne (q / 2 powi e)
           in if (if 0 \<le> e then 2 ^ 1024 \<le> \<bar>m\<bar> * 2 ^ nat e else 2 ^ 1024 * 2 ^ nat (- e) \<le> \<bar>m\<bar>)
              then (if 0 < q then PInf else NInf)
              else Fin (of_int m * 2 powi e))"
  unfolding f64_round_def Let_def overflow_test ..

section \<open>Properties of \<^verbatim>\<open>Init\<close>\<close>

lemma wrap64_id: "- (2 ^ 63) \<le> n \<Longrightarrow> n < 2 ^ 63 \<Longrightarrow> wrap64 n = n"
  by (simp add: wrap64_def)

lemma go_div_2: "0 \<le> a \<Longrightarrow> go_div a 2 = a div 2"
  by (simp add: go_div_def)

lemma f64_of_int_exact: "0 \<le> n \<Longrightarrow> n < 2 ^ 53 \<Longrightarrow> f64_of_int n = Fin (of_int n)"
  by (simp add: f64_of_int_def f64_round_nat)

lemma f64_to_int_of_int:
  "0 \<le> n \<Longrightarrow> n < 2 ^ 53 \<Longrightarrow> f64_to_int oor (Fin (of_int n)) = n"
  by (simp add: trunc_def)

lemma Init_size_unit:
  assumes "0 \<le> iw" "iw < 2 ^ 53" "0 \<le> ih" "ih < 2 ^ 53"
  shows "Init_size ext (Fin 1) iw ih = (iw, ih div 2)"
  using assms
  by (simp add: Init_size_def f64_of_int_exact f64_round_nat trunc_def go_div_2)

lemma appendImg_Returns:
  assumes "appendImg ext img f d = Returns img'"
  shows "img' = img\<lparr>frames := frames img
                   @ [\<lparr>picture = quantize ext (w img) (h img) f,
                       delay = render_delay ext (DelayMultiplier img) d\<rparr>]\<rparr>"
    and "0 \<le> w img" and "0 < w img \<Longrightarrow> 0 \<le> h img"
  using assms by (auto simp: appendImg_def split: if_splits)

lemma has_size_quantize:
  assumes "0 \<le> wd" and "0 < wd \<Longrightarrow> 0 \<le> ht"
  shows "has_size wd ht (quantize ext wd ht f)"
  using assms by (auto simp: has_size_def quantize_def Let_def)

lemma gif_loop_Cons_Returns:
  assumes "gif_loop ext g iw ih (i # rest) st = Returns st'"
  shows "\<exists>f img1 s c p. i < length (gDelay g)
           \<and> appendImg ext (cimg st) f (wrap64 (gDelay g ! i * 10)) = Returns img1
           \<and> gif_loop ext g iw ih rest \<lparr>cimg = img1, store = s, canvas = c, prev = p\<rparr> = Returns st'"
  using assms
  by (simp add: Let_def split: if_splits result.splits option.splits) blast+

lemma gif_loop_frames:
  assumes "gif_loop ext g iw ih idx st = Returns st'"
  shows "\<exists>new. cimg st' = (cimg st)\<lparr>frames := frames (cimg st) @ new\<rparr>
          \<and> map delay new
              = map (\<lambda>i. render_delay ext (DelayMultiplier (cimg st)) (wrap64 (gDelay g ! i * 10))) idx
          \<and> (\<forall>fr \<in> set new. has_size (w (cimg st)) (h (cimg st)) (picture fr))"
  using assms
proof (induction idx arbitrary: st)
  case Nil
  then show ?case by simp
next
  case (Cons i rest)
  from gif_loop_Cons_Returns [OF Cons.prems]
  obtain f img1 s c p where i: "i < length (gDelay g)"
    and app: "appendImg ext (cimg st) f (wrap64 (gDelay g ! i * 10)) = Returns img1"
    and rest: "gif_loop ext g iw ih rest \<lparr>cimg = img1, store = s, canvas = c, prev = p\<rparr> = Returns st'"
    by blast
  define st1 where "st1 = \<lparr>cimg = img1, store = s, canvas = c, prev = p\<rparr>"
  have st1: "cimg st1 = img1" by (simp add: st1_def)
  note rest = rest [folded st1_def]
  let ?fr = "\<lparr>picture = quantize ext (w (cimg st)) (h (cimg st)) f,
              delay = render_delay ext (DelayMultiplier (cimg st)) (wrap64 (gDelay g ! i * 10))\<rparr>"
  have img1: "img1 = (cimg st)\<lparr>frames := frames (cimg st) @ [?fr]\<rparr>"
    by (rule appendImg_Returns(1) [OF app])
  have sz: "has_size (w (cimg st)) (h (cimg st)) (picture ?fr)"
    using appendImg_Returns(2,3) [OF app] by (simp add: has_size_quantize)
  from Cons.IH [OF rest] obtain new where
    new: "cimg st' = (cimg st1)\<lparr>frames := frames (cimg st1) @ new\<rparr>"
      "map delay new
         = map (\<lambda>i. render_delay ext (DelayMultiplier (cimg st1)) (wrap64 (gDelay g ! i * 10))) rest"
      "\<forall>fr \<in> set new. has_size (w (cimg st1)) (h (cimg st1)) (picture fr)"
    by blast
  have "cimg st' = (cimg st)\<lparr>frames := frames (cimg st) @ (?fr # new)\<rparr>"
    using new(1) by (simp add: st1 img1)
  moreover have "map delay (?fr # new)
      = map (\<lambda>i. render_delay ext (DelayMultiplier (cimg st)) (wrap64 (gDelay g ! i * 10))) (i # rest)"
    using new(2) by (simp add: st1 img1)
  moreover have "\<forall>fr \<in> set (?fr # new). has_size (w (cimg st)) (h (cimg st)) (picture fr)"
    using new(3) sz by (simp add: st1 img1)
  ultimately show ?case by blast
qed

lemma Init_static:
  assumes "Init ext img wl = Returns (None, img', wl')"
    and "image_Decode ext (Filename img) = Inr (first, fmt)"
    and "\<not> (fmt = ''gif'' \<and> 0 < LoopCount img)"
  shows "\<exists>scale. Init_scale ext img fmt (fst (bounds_Max ext first)) (snd (bounds_Max ext first))
                   = Inr scale
           \<and> w img' = fst (Init_size ext scale (fst (bounds_Max ext first)) (snd (bounds_Max ext first)))
           \<and> h img' = snd (Init_size ext scale (fst (bounds_Max ext first)) (snd (bounds_Max ext first)))
           \<and> LoopCount img' = 1
           \<and> DelayMultiplier img' = DelayMultiplier img
           \<and> frames img' = frames img
                @ [\<lparr>picture = quantize ext (w img') (h img') first,
                    delay = render_delay ext (DelayMultiplier img) 0\<rparr>]"
  using assms
  by (auto simp: Init_def os_open_def Let_def dest!: appendImg_Returns(1)
           split: option.splits sum.splits result.splits if_splits)

lemma Init_gif:
  assumes "Init ext img wl = Returns (None, img', wl')"
    and "image_Decode ext (Filename img) = Inr (first, fmt)"
    and "fmt = ''gif''" and "0 < LoopCount img"
  shows "\<exists>scale g st. Init_scale ext img fmt (fst (bounds_Max ext first)) (snd (bounds_Max ext first))
                   = Inr scale
           \<and> gif_DecodeAll ext (Filename img) = Inr g
           \<and> gif_loop ext g (gWidth g) (gHeight g) [0..<length (gImage g)]
                \<lparr>cimg = img\<lparr>w := fst (Init_size ext scale (fst (bounds_Max ext first)) (snd (bounds_Max ext first))),
                             h := snd (Init_size ext scale (fst (bounds_Max ext first)) (snd (bounds_Max ext first)))\<rparr>,
                 store = [image_NewRGBA ext (gWidth g) (gHeight g)], canvas = 0, prev = None\<rparr>
               = Returns st
           \<and> img' = cimg st"
  using assms
  by (auto simp: Init_def os_open_def Let_def
           split: option.splits sum.splits result.splits if_splits)

lemma Init_decoded:
  assumes "Init ext img wl = Returns (None, img', wl')"
  shows "\<exists>first fmt. image_Decode ext (Filename img) = Inr (first, fmt)"
  using assms
  by (auto simp: Init_def os_open_def split: option.splits sum.splits)

lemma render_delay_zero: "render_delay ext (Fin m) 0 = 0"
  by (simp add: render_delay_def f64_of_int_def f64_round_def trunc_def)

lemma Init_scale_fits:
  assumes "UserWidth img \<le> 0"
    and "tput ext ''lines'' = (tr, None)"
    and "fmt \<noteq> ''gif'' \<or> LoopCount img = 0 \<Longrightarrow> tput ext ''cols'' = (tc, None)"
    and "iw \<le> (if fmt \<noteq> ''gif'' \<or> LoopCount img = 0 then tc else 40)"
    and "ih \<le> 2 * tr - 1" and "0 \<le> ih" and "tr < 2 ^ 62"
  shows "Init_scale ext img fmt iw ih = Inr (Fin 1)"
proof -
  have "wrap64 (tr * 2) = tr * 2"
    using assms(5,6,7) by (intro wrap64_id) simp_all
  moreover have "wrap64 (tr * 2 - 1) = tr * 2 - 1"
    using assms(5,6,7) by (intro wrap64_id) simp_all
  ultimately have th: "wrap64 (wrap64 (tr * 2) - 1) = 2 * tr - 1"
    by simp
  show ?thesis
  proof (cases "fmt \<noteq> ''gif'' \<or> LoopCount img = 0")
    case True
    then have "tput ext ''cols'' = (tc, None)" and "iw \<le> tc"
      using assms(3,4) by simp_all
    then show ?thesis
      using True assms(1,2,5) by (simp add: Init_scale_def th)
  next
    case False
    then have "iw \<le> 40" using assms(4) by simp
    then show ?thesis
      using False assms(1,2,5) by (simp add: Init_scale_def th)
  qed
qed

lemma Init_size_of:
  assumes "Init ext img wl = Returns (None, img', wl')"
    and "image_Decode ext (Filename img) = Inr (first, fmt)"
    and "bounds_Max ext first = (iw, ih)"
    and "Init_scale ext img fmt iw ih = Inr scale"
  shows "(w img', h img') = Init_size ext scale iw ih"
proof (cases "fmt = ''gif'' \<and> 0 < LoopCount img")
  case True
  from Init_gif [OF assms(1,2)] True obtain scale' g st where
    sc: "Init_scale ext img fmt (fst (bounds_Max ext first)) (snd (bounds_Max ext first)) = Inr scale'"
    and lp: "gif_loop ext g (gWidth g) (gHeight g) [0..<length (gImage g)]
               \<lparr>cimg = img\<lparr>w := fst (Init_size ext scale' (fst (bounds_Max ext first)) (snd (bounds_Max ext first))),
                            h := snd (Init_size ext scale' (fst (bounds_Max ext first)) (snd (bounds_Max ext first)))\<rparr>,
                store = [image_NewRGBA ext (gWidth g) (gHeight g)], canvas = 0, prev = None\<rparr>
              = Returns st"
    and img': "img' = cimg st"
    by blast
  have "scale' = scale" using sc assms(3,4) by simp
  moreover from gif_loop_frames [OF lp] obtain new where
    "cimg st = (img\<lparr>w := fst (Init_size ext scale' (fst (bounds_Max ext first)) (snd (bounds_Max ext first))),
                    h := snd (Init_size ext scale' (fst (bounds_Max ext first)) (snd (bounds_Max ext first)))\<rparr>)
               \<lparr>frames := frames img @ new\<rparr>"
    by auto
  ultimately show ?thesis using img' assms(3) by simp
next
  case False
  from Init_static [OF assms(1,2) False] assms(3,4) show ?thesis by auto
qed

lemma f64_div_ten: 
  assumes "0 \<le> d" and "d \<le> 65535"
  shows "f64_div (f64_of_int (wrap64 (d * 10))) (Fin 10) = Fin (of_int d)"
proof -
  have "wrap64 (d * 10) = d * 10" using assms by (intro wrap64_id) simp_all
  moreover have "f64_of_int (d * 10) = Fin (of_int (d * 10))"
    using assms by (intro f64_of_int_exact) simp_all
  moreover have "f64_round (of_int d) = Fin (of_int d)"
    using assms by (intro f64_round_nat) simp_all
  ultimately show ?thesis by simp
qed

lemma render_delay_gif:
  assumes "0 \<le> d" and "d \<le> 65535"
  shows "render_delay ext mult (wrap64 (d * 10))
           = f64_to_int (int_of_f64 ext) (f64_ceil (f64_mul (Fin (of_int d)) mult))"
  by (simp add: render_delay_def f64_div_ten [OF assms])

lemma render_delay_value:
  assumes "0 \<le> d" and "d \<le> 65535" and "f64_round (of_int d * m) = Fin r"
  shows "render_delay ext (Fin m) (wrap64 (d * 10))
           = (if - (2 ^ 63) \<le> \<lceil>r\<rceil> \<and> \<lceil>r\<rceil> < 2 ^ 63 then \<lceil>r\<rceil>
              else int_of_f64 ext (Fin (of_int \<lceil>r\<rceil>)))"
  by (simp add: render_delay_gif [OF assms(1,2)] assms(3) trunc_def)

lemma render_delay_nonneg:
  assumes "0 \<le> d" and "d \<le> 65535" and "0 \<le> m" and "m * 65535 \<le> 2 ^ 63 - 1024"
  shows "0 \<le> render_delay ext (Fin m) (wrap64 (d * 10))"
proof -
  have "of_int d * m \<le> of_int 65535 * m"
    using assms(2,3) by (intro mult_right_mono) (simp_all only: of_int_le_iff)
  then have le: "of_int d * m \<le> (of_int ((2 ^ 53 - 1) * 2 ^ 10) :: rat)"
    using assms(4) by simp
  have "0 \<le> of_int d * m" using assms by simp
  from f64_round_bounds [OF this le]
  obtain r where r: "f64_round (of_int d * m) = Fin r" "0 \<le> r"
    "r \<le> of_int ((2 ^ 53 - 1) * 2 ^ 10)"
    by auto
  have "\<lceil>r\<rceil> \<le> (2 ^ 53 - 1) * 2 ^ 10" using r(3) by (simp only: ceiling_le_iff)
  moreover have "0 \<le> \<lceil>r\<rceil>" using r(2) by simp
  ultimately show ?thesis
    by (simp add: render_delay_value [OF assms(1,2) r(1)])
qed

lemma gif_loop_indices:
  assumes "gif_loop ext g iw ih idx st = Returns st'"
  shows "\<forall>i \<in> set idx. i < length (gDelay g)"
  using assms
proof (induction idx arbitrary: st)
  case Nil
  then show ?case by simp
next
  case (Cons i rest)
  from gif_loop_Cons_Returns [OF Cons.prems] Cons.IH show ?case
    by auto
qed

lemma Init_static_size:
  assumes "Init ext img wl = Returns (None, img', wl')"
    and "image_Decode ext (Filename img) = Inr (first, fmt)"
    and "\<not> (fmt = ''gif'' \<and> 0 < LoopCount img)"
  shows "0 \<le> w img' \<and> (0 < w img' \<longrightarrow> 0 \<le> h img')"
  using assms
  by (auto simp: Init_def os_open_def Let_def appendImg_def
           split: option.splits sum.splits result.splits if_splits)

section \<open>Properties of \<^verbatim>\<open>Init\<close>: the claims\<close>

text \<open>
  Claim C1 says that without a user width, when the terminal has at least \<open>iw\<close> columns
  and \<open>2 * tr - 1 \<ge> ih\<close>, the resolved size is \<open>(iw, ih div 2)\<close>, also for a GIF rendered
  with a positive loop count.  For such a GIF the code does not ask the terminal for its
  columns and takes 40 (lines 89-95): a GIF of 100 by 10 pixels with loop count 1 on a
  terminal of 200 columns and 50 rows is resolved to 40 by 2, not to 100 by 5.
\<close>

theorem init_looping_gif_uses_40_columns:
  "UserWidth img0 = 0 \<and> LoopCount img0 = 1
   \<and> tput (test_ext gif_100x10 frames_100x10 term_200_50) ''cols'' = (200, None)
   \<and> tput (test_ext gif_100x10 frames_100x10 term_200_50) ''lines'' = (50, None)
   \<and> (100::int) \<le> 200 \<and> (10::int) \<le> 2 * 50 - 1
   \<and> resolved (Init (test_ext gif_100x10 frames_100x10 term_200_50) img0 world0) = Some (40, 2)
   \<and> (40, 2) \<noteq> (100 :: int, 10 div 2 :: int)"
  by code_simp

text \<open>
  Claim C1, amended.  Without a user width, when \<^verbatim>\<open>Init\<close> returns \<^verbatim>\<open>nil\<close>, the terminal
  reports \<open>tc\<close> columns and \<open>tr\<close> rows, \<open>ih \<le> 2 * tr - 1\<close> and \<open>iw\<close> is at most the column
  count the code uses (\<open>tc\<close> for a picture that is not a GIF or has loop count 0, the
  constant 40 otherwise), the resolved size is \<open>(iw, ih div 2)\<close>.  The sizes are those of
  a decoded picture (not negative, below \<open>2 ^ 53\<close>) and \<open>2 * tr - 1\<close> fits an \<^verbatim>\<open>int\<close>.
\<close>

theorem init_size_when_image_fits:
  assumes "Init ext img wl = Returns (None, img', wl')"
    and "image_Decode ext (Filename img) = Inr (first, fmt)"
    and "bounds_Max ext first = (iw, ih)"
    and "UserWidth img = 0"
    and "tput ext ''cols'' = (tc, None)" and "tput ext ''lines'' = (tr, None)"
    and "iw \<le> (if fmt \<noteq> ''gif'' \<or> LoopCount img = 0 then tc else 40)"
    and "ih \<le> 2 * tr - 1"
    and "0 \<le> iw" and "iw < 2 ^ 53" and "0 \<le> ih" and "ih < 2 ^ 53" and "tr < 2 ^ 62"
  shows "w img' = iw \<and> h img' = ih div 2"
proof -
  have "Init_scale ext img fmt iw ih = Inr (Fin 1)"
    using assms(4,5,6,7,8,11,13) by (intro Init_scale_fits [where tc = tc and tr = tr]) simp_all
  from Init_size_of [OF assms(1,2,3) this]
  have "(w img', h img') = Init_size ext (Fin 1) iw ih" .
  also have "\<dots> = (iw, ih div 2)"
    using assms(9,10,11,12) by (rule Init_size_unit)
  finally show ?thesis by simp
qed

theorem init_size_when_image_fits_witness:
  "Init (test_ext png_3x4 no_gif term_200_50) img0 world0
     = Returns (None,
         \<lparr>Filename = ''a'', ExportFilename = [], LoopCount = 1, DelayMultiplier = Fin 1,
          UserWidth = 0, frames = [\<lparr>picture = [[7, 7], [7, 7], [7, 7]], delay = 0\<rparr>],
          h = 2, w = 3\<rparr>,
         \<lparr>next_handle = 1, open_handles = []\<rparr>)
   \<and> image_Decode (test_ext png_3x4 no_gif term_200_50) (Filename img0) = Inr (solid 3 4 7, ''png'')
   \<and> bounds_Max (test_ext png_3x4 no_gif term_200_50) (solid 3 4 7) = (3, 4)
   \<and> UserWidth img0 = 0
   \<and> tput (test_ext png_3x4 no_gif term_200_50) ''cols'' = (200, None)
   \<and> tput (test_ext png_3x4 no_gif term_200_50) ''lines'' = (50, None)
   \<and> w \<lparr>Filename = ''a'', ExportFilename = [], LoopCount = 1, DelayMultiplier = Fin 1,
         UserWidth = 0, frames = [\<lparr>picture = [[7, 7], [7, 7], [7, 7]], delay = 0\<rparr>],
         h = 2, w = 3\<rparr> = 3
   \<and> h \<lparr>Filename = ''a'', ExportFilename = [], LoopCount = 1, DelayMultiplier = Fin 1,
         UserWidth = 0, frames = [\<lparr>picture = [[7, 7], [7, 7], [7, 7]], delay = 0\<rparr>],
         h = 2, w = 3\<rparr> = 4 div 2"
proof -
  let ?ext = "test_ext png_3x4 no_gif term_200_50"
  let ?img = "\<lparr>Filename = ''a'', ExportFilename = [], LoopCount = 1, DelayMultiplier = Fin 1,
         UserWidth = 0, frames = [\<lparr>picture = [[7, 7], [7, 7], [7, 7]], delay = 0\<rparr>],
         h = 2, w = 3\<rparr>"
  have run: "Init ?ext img0 world0 = Returns (None, ?img, \<lparr>next_handle = 1, open_handles = []\<rparr>)"
    by code_simp
  have dec: "image_Decode ?ext (Filename img0) = Inr (solid 3 4 7, ''png'')"
    by (simp add: test_ext_def png_3x4_def)
  have bnd: "bounds_Max ?ext (solid 3 4 7) = (3, 4)"
    by (simp add: test_ext_def solid_def)
  have uw: "UserWidth img0 = 0"
    by (simp add: img0_def)
  have cols: "tput ?ext ''cols'' = (200, None)" and rows: "tput ?ext ''lines'' = (50, None)"
    by code_simp+
  have "w ?img = 3 \<and> h ?img = 4 div 2"
    by (rule init_size_when_image_fits [OF run dec bnd uw cols rows]) simp_all
  with run dec bnd uw cols rows show ?thesis by blast
qed

text \<open>
  Claim C6 says that for a picture that is not a GIF, and for a GIF with loop count 0,
  \<^verbatim>\<open>Init\<close> produces one frame with delay 0.  The stored delay is
  \<open>int (ceil (0 / 10 * DelayMultiplier))\<close> (line 127), and \<^verbatim>\<open>DelayMultiplier\<close> is an
  exported \<^verbatim>\<open>float64\<close>: when it is an infinity the product is a NaN, and the stored delay
  is what the implementation makes of \<^verbatim>\<open>int(NaN)\<close>, the smallest \<^verbatim>\<open>int\<close> on amd64.
\<close>

theorem init_static_infinite_multiplier_delay:
  "Init (test_ext png_3x4 no_gif term_200_50) (img0\<lparr>DelayMultiplier := PInf\<rparr>) world0
     = Returns (None,
         \<lparr>Filename = ''a'', ExportFilename = [], LoopCount = 1, DelayMultiplier = PInf,
          UserWidth = 0,
          frames = [\<lparr>picture = [[7, 7], [7, 7], [7, 7]], delay = - 9223372036854775808\<rparr>],
          h = 2, w = 3\<rparr>,
         \<lparr>next_handle = 1, open_handles = []\<rparr>)"
  by code_simp

text \<open>
  Claim C6, amended.  For a picture that is not a GIF, and for a GIF with loop count 0,
  an \<^verbatim>\<open>Init\<close> that returns \<^verbatim>\<open>nil\<close> has added exactly one frame, made of the first decoded
  picture with source delay 0, and has set the loop count to 1, whatever the loop count
  and the delay multiplier of the caller.  The stored delay of that frame is 0 for every
  finite delay multiplier.
\<close>

theorem init_static_one_frame:
  assumes "Init ext img wl = Returns (None, img', wl')"
    and "image_Decode ext (Filename img) = Inr (first, fmt)"
    and "fmt \<noteq> ''gif'' \<or> LoopCount img = 0"
  shows "frames img' = frames img
           @ [\<lparr>picture = quantize ext (w img') (h img') first,
               delay = render_delay ext (DelayMultiplier img) 0\<rparr>]
         \<and> LoopCount img' = 1
         \<and> (\<forall>m. DelayMultiplier img = Fin m \<longrightarrow> render_delay ext (DelayMultiplier img) 0 = 0)"
proof -
  have "\<not> (fmt = ''gif'' \<and> 0 < LoopCount img)" using assms(3) by auto
  from Init_static [OF assms(1,2) this] show ?thesis
    by (auto simp: render_delay_zero)
qed

theorem init_static_one_frame_witness:
  "Init (test_ext png_3x4 no_gif term_200_50) (img0\<lparr>LoopCount := 5\<rparr>) world0
     = Returns (None,
         \<lparr>Filename = ''a'', ExportFilename = [], LoopCount = 1, DelayMultiplier = Fin 1,
          UserWidth = 0, frames = [\<lparr>picture = [[7, 7], [7, 7], [7, 7]], delay = 0\<rparr>],
          h = 2, w = 3\<rparr>,
         \<lparr>next_handle = 1, open_handles = []\<rparr>)
   \<and> image_Decode (test_ext png_3x4 no_gif term_200_50) (Filename (img0\<lparr>LoopCount := 5\<rparr>))
       = Inr (solid 3 4 7, ''png'')
   \<and> DelayMultiplier (img0\<lparr>LoopCount := 5\<rparr>) = Fin 1
   \<and> render_delay (test_ext png_3x4 no_gif term_200_50) (DelayMultiplier (img0\<lparr>LoopCount := 5\<rparr>)) 0 = 0
   \<and> LoopCount \<lparr>Filename = ''a'', ExportFilename = [], LoopCount = 1, DelayMultiplier = Fin 1,
          UserWidth = 0, frames = [\<lparr>picture = [[7, 7], [7, 7], [7, 7]], delay = 0\<rparr>],
          h = 2, w = 3\<rparr> = 1"
proof -
  let ?ext = "test_ext png_3x4 no_gif term_200_50"
  let ?img = "\<lparr>Filename = ''a'', ExportFilename = [], LoopCount = 1, DelayMultiplier = Fin 1,
         UserWidth = 0, frames = [\<lparr>picture = [[7, 7], [7, 7], [7, 7]], delay = 0\<rparr>],
         h = 2, w = 3\<rparr>"
  have run: "Init ?ext (img0\<lparr>LoopCount := 5\<rparr>) world0
               = Returns (None, ?img, \<lparr>next_handle = 1, open_handles = []\<rparr>)"
    by code_simp
  have dec: "image_Decode ?ext (Filename (img0\<lparr>LoopCount := 5\<rparr>)) = Inr (solid 3 4 7, ''png'')"
    by (simp add: test_ext_def png_3x4_def)
  have fin: "DelayMultiplier (img0\<lparr>LoopCount := 5\<rparr>) = Fin 1"
    by (simp add: img0_def)
  from init_static_one_frame [OF run dec] fin
  have "render_delay ?ext (DelayMultiplier (img0\<lparr>LoopCount := 5\<rparr>)) 0 = 0 \<and> LoopCount ?img = 1"
    by simp
  with run dec fin show ?thesis by blast
qed




text \<open>
  Claim C3.  For an animation of two frames, the first with disposal restore-to-background
  and the second with disposal none, the second frame of the result is made of the second
  source frame drawn over a fresh canvas of the animation's size: the canvas on which the
  first frame was drawn is not used again.
\<close>

theorem init_background_then_none:
  assumes "Init ext img wl = Returns (None, img', wl')"
    and "image_Decode ext (Filename img) = Inr (first, ''gif'')"
    and "0 < LoopCount img"
    and "gif_DecodeAll ext (Filename img) = Inr g"
    and "gImage g = [f0, f1]"
    and "gDisposal g = [DisposalBackground, DisposalNone]"
  shows "\<exists>fr0 fr1. frames img' = frames img @ [fr0, fr1]
           \<and> picture fr1
               = quantize ext (w img') (h img')
                   (draw_Over ext (image_NewRGBA ext (gWidth g) (gHeight g)) f1)"
proof -
  from Init_gif [OF assms(1,2) refl assms(3)] assms(4) obtain scale st where
    lp: "gif_loop ext g (gWidth g) (gHeight g) [0..<length (gImage g)]
               \<lparr>cimg = img\<lparr>w := fst (Init_size ext scale (fst (bounds_Max ext first)) (snd (bounds_Max ext first))),
                            h := snd (Init_size ext scale (fst (bounds_Max ext first)) (snd (bounds_Max ext first)))\<rparr>,
                store = [image_NewRGBA ext (gWidth g) (gHeight g)], canvas = 0, prev = None\<rparr>
              = Returns st"
    and img': "img' = cimg st"
    by auto
  have idx: "[0..<length (gImage g)] = [0, Suc 0]"
    by (simp add: assms(5) upt_rec)
  show ?thesis
    using lp unfolding idx img'
    by (auto simp: assms(5,6) Let_def appendImg_def DisposalBackground_def DisposalNone_def
                   DisposalPrevious_def
             split: if_splits)
qed

theorem init_background_then_none_witness:
  "Init (test_ext gif_2x2 (\<lambda>name. Inr background_then_none) term_200_50) img0 world0
     = Returns (None,
         \<lparr>Filename = ''a'', ExportFilename = [], LoopCount = 1, DelayMultiplier = Fin 1,
          UserWidth = 0,
          frames = [\<lparr>picture = [[1], [1]], delay = 10\<rparr>, \<lparr>picture = [[2], [0]], delay = 20\<rparr>],
          h = 1, w = 2\<rparr>,
         \<lparr>next_handle = 2, open_handles = []\<rparr>)
   \<and> gImage background_then_none = [solid 2 2 1, solid 1 2 2]
   \<and> gDisposal background_then_none = [DisposalBackground, DisposalNone]
   \<and> quantize (test_ext gif_2x2 (\<lambda>name. Inr background_then_none) term_200_50) 2 1
        (draw_Over (test_ext gif_2x2 (\<lambda>name. Inr background_then_none) term_200_50)
           (image_NewRGBA (test_ext gif_2x2 (\<lambda>name. Inr background_then_none) term_200_50)
              (gWidth background_then_none) (gHeight background_then_none))
           (solid 1 2 2))
       = [[2], [0]]"
proof -
  let ?ext = "test_ext gif_2x2 (\<lambda>name. Inr background_then_none) term_200_50"
  let ?img = "\<lparr>Filename = ''a'', ExportFilename = [], LoopCount = 1, DelayMultiplier = Fin 1,
          UserWidth = 0,
          frames = [\<lparr>picture = [[1], [1]], delay = 10\<rparr>, \<lparr>picture = [[2], [0]], delay = 20\<rparr>],
          h = 1, w = 2\<rparr>"
  have run: "Init ?ext img0 world0 = Returns (None, ?img, \<lparr>next_handle = 2, open_handles = []\<rparr>)"
    by code_simp
  have dec: "image_Decode ?ext (Filename img0) = Inr (solid 2 2 1, ''gif'')"
    by (simp add: test_ext_def gif_2x2_def)
  have lc: "0 < LoopCount img0"
    by (simp add: img0_def)
  have all: "gif_DecodeAll ?ext (Filename img0) = Inr background_then_none"
    by (simp add: test_ext_def)
  have fs: "gImage background_then_none = [solid 2 2 1, solid 1 2 2]"
    and ds: "gDisposal background_then_none = [DisposalBackground, DisposalNone]"
    by (simp_all add: background_then_none_def)
  from init_background_then_none [OF run dec lc all fs ds]
  have "quantize ?ext 2 1
          (draw_Over ?ext (image_NewRGBA ?ext (gWidth background_then_none)
                             (gHeight background_then_none)) (solid 1 2 2))
        = [[2], [0]]"
    by (auto simp: img0_def)
  with run fs ds show ?thesis by blast
qed

text \<open>
  Claim C4.  The claim says that restore-to-previous puts back the canvas as it was when
  it was remembered, whatever has been drawn since.  In the code \<^verbatim>\<open>prev = &(*canvas)\<close>
  (line 153) copies the pointer, so \<^verbatim>\<open>prev\<close> and \<^verbatim>\<open>canvas\<close> are the same object and
  \<^verbatim>\<open>canvas = prev\<close> (line 156) changes nothing.  On \<open>none_then_previous\<close> the third frame
  of the result still shows colour 2 in the left column, drawn by the second frame after
  the canvas was remembered; the remembered canvas had colour 1 there.
\<close>

theorem init_restore_previous_keeps_later_drawing:
  "Init (test_ext gif_2x2 (\<lambda>name. Inr none_then_previous) term_200_50) img0 world0
     = Returns (None,
         \<lparr>Filename = ''a'', ExportFilename = [], LoopCount = 1, DelayMultiplier = Fin 1,
          UserWidth = 0,
          frames = [\<lparr>picture = [[1], [1]], delay = 10\<rparr>, \<lparr>picture = [[2], [1]], delay = 10\<rparr>,
                    \<lparr>picture = [[2], [1]], delay = 10\<rparr>],
          h = 1, w = 2\<rparr>,
         \<lparr>next_handle = 2, open_handles = []\<rparr>)"
  by code_simp

text \<open>
  Claim C8.  The claim says that a user width \<open>uw > 0\<close> is the resolved width.  The code
  computes \<open>floor (uw / iw * iw)\<close> in \<^verbatim>\<open>float64\<close> (lines 71 and 108), and the rounded
  quotient times \<open>iw\<close> can fall just below \<open>uw\<close>: with a user width of 40 and a picture
  of 154 by 10 pixels the resolved width is 39.  No terminal query is made.
\<close>

theorem init_user_width_40_resolves_to_39:
  "Init (test_ext png_154x10 no_gif (\<lambda>cmd. Inl ''no terminal'')) (img0\<lparr>UserWidth := 40\<rparr>) world0
     = Returns (None,
         \<lparr>Filename = ''a'', ExportFilename = [], LoopCount = 1, DelayMultiplier = Fin 1,
          UserWidth = 40, frames = [\<lparr>picture = replicate 39 [7], delay = 0\<rparr>], h = 1, w = 39\<rparr>,
         \<lparr>next_handle = 1, open_handles = []\<rparr>)"
  by code_simp

text \<open>
  Claim C9 says that after a successful \<^verbatim>\<open>Init\<close> every frame has the resolved size and a
  delay that is not negative, whatever the delay multiplier.  With the multiplier \<open>- 1\<close>
  and a frame of delay 10 the stored delay is \<open>- 10\<close>; with the multiplier \<open>2 ^ 63\<close> the
  product does not fit an \<^verbatim>\<open>int\<close> and the stored delay is what the implementation makes
  of the conversion, the smallest \<^verbatim>\<open>int\<close> on amd64.
\<close>

theorem init_negative_multiplier_negative_delay:
  "Init (test_ext gif_2x2 (\<lambda>name. Inr one_frame) term_200_50)
        (img0\<lparr>DelayMultiplier := Fin (- 1)\<rparr>) world0
     = Returns (None,
         \<lparr>Filename = ''a'', ExportFilename = [], LoopCount = 1, DelayMultiplier = Fin (- 1),
          UserWidth = 0, frames = [\<lparr>picture = [[1], [1]], delay = - 10\<rparr>], h = 1, w = 2\<rparr>,
         \<lparr>next_handle = 2, open_handles = []\<rparr>)
   \<and> Init (test_ext gif_2x2 (\<lambda>name. Inr one_frame) term_200_50)
        (img0\<lparr>DelayMultiplier := Fin 9223372036854775808\<rparr>) world0
     = Returns (None,
         \<lparr>Filename = ''a'', ExportFilename = [], LoopCount = 1,
          DelayMultiplier = Fin 9223372036854775808,
          UserWidth = 0, frames = [\<lparr>picture = [[1], [1]], delay = - 9223372036854775808\<rparr>],
          h = 1, w = 2\<rparr>,
         \<lparr>next_handle = 2, open_handles = []\<rparr>)"
  by code_simp

text \<open>
  Claim C9, amended.  After an \<^verbatim>\<open>Init\<close> that returns \<^verbatim>\<open>nil\<close>, whatever the picture and the
  configuration, every frame it has added has an index buffer of the resolved width and
  height.  The delay of every such frame is not negative when the delay multiplier is a
  finite number \<open>m \<ge> 0\<close> whose product with the largest delay of the format fits an
  \<^verbatim>\<open>int\<close> after rounding (\<open>65535 * m \<le> 2 ^ 63 - 1024\<close>) and the delays of the animation are
  in the range of the format (0 to 65535).
\<close>

theorem init_frames_sized:
  assumes "Init ext img wl = Returns (None, img', wl')"
  shows "\<exists>new. frames img' = frames img @ new
           \<and> (\<forall>fr \<in> set new. has_size (w img') (h img') (picture fr))
           \<and> ((\<exists>m. DelayMultiplier img = Fin m \<and> 0 \<le> m \<and> m * 65535 \<le> 2 ^ 63 - 1024)
                \<and> (\<forall>g. gif_DecodeAll ext (Filename img) = Inr g
                         \<longrightarrow> (\<forall>d \<in> set (gDelay g). 0 \<le> d \<and> d \<le> 65535))
               \<longrightarrow> (\<forall>fr \<in> set new. 0 \<le> delay fr))"
proof -
  from Init_decoded [OF assms(1)] obtain first fmt where
    dec: "image_Decode ext (Filename img) = Inr (first, fmt)" by blast
  show ?thesis
  proof (cases "fmt = ''gif'' \<and> 0 < LoopCount img")
    case False
    let ?fr = "\<lparr>picture = quantize ext (w img') (h img') first,
                delay = render_delay ext (DelayMultiplier img) 0\<rparr>"
    from Init_static [OF assms(1) dec False]
    have fr: "frames img' = frames img @ [?fr]" by blast
    from Init_static_size [OF assms(1) dec False]
    have "has_size (w img') (h img') (picture ?fr)"
      by (simp add: has_size_quantize)
    moreover have "0 \<le> delay ?fr" if "DelayMultiplier img = Fin m" for m
      by (simp add: that render_delay_zero)
    ultimately show ?thesis using fr by auto
  next
    case True
    from Init_gif [OF assms(1) dec] True obtain scale g st where
      g: "gif_DecodeAll ext (Filename img) = Inr g"
      and lp: "gif_loop ext g (gWidth g) (gHeight g) [0..<length (gImage g)]
               \<lparr>cimg = img\<lparr>w := fst (Init_size ext scale (fst (bounds_Max ext first)) (snd (bounds_Max ext first))),
                            h := snd (Init_size ext scale (fst (bounds_Max ext first)) (snd (bounds_Max ext first)))\<rparr>,
                store = [image_NewRGBA ext (gWidth g) (gHeight g)], canvas = 0, prev = None\<rparr>
              = Returns st"
      and img': "img' = cimg st"
      by blast
    from gif_loop_frames [OF lp] obtain new where
      fr: "frames img' = frames img @ new"
      and dl: "map delay new
        = map (\<lambda>i. render_delay ext (DelayMultiplier img) (wrap64 (gDelay g ! i * 10)))
              [0..<length (gImage g)]"
      and sz: "\<forall>fr \<in> set new. has_size (w img') (h img') (picture fr)"
      using img' by auto
    have "0 \<le> delay fr"
      if "fr \<in> set new" and m: "DelayMultiplier img = Fin m" "0 \<le> m" "m * 65535 \<le> 2 ^ 63 - 1024"
        and range: "\<forall>g. gif_DecodeAll ext (Filename img) = Inr g
                         \<longrightarrow> (\<forall>d \<in> set (gDelay g). 0 \<le> d \<and> d \<le> 65535)"
      for fr m
    proof -
      have "delay fr \<in> set (map delay new)" using that(1) by simp
      then obtain i where i: "i < length (gImage g)"
        and d: "delay fr = render_delay ext (DelayMultiplier img) (wrap64 (gDelay g ! i * 10))"
        unfolding dl by auto
      have "i < length (gDelay g)" using gif_loop_indices [OF lp] i by simp
      then have "gDelay g ! i \<in> set (gDelay g)" by simp
      then have "0 \<le> gDelay g ! i" "gDelay g ! i \<le> 65535" using range g by auto
      then show ?thesis
        unfolding d m(1) using m(2,3) by (rule render_delay_nonneg)
    qed
    then show ?thesis using fr sz by blast
  qed
qed

theorem init_frames_sized_witness:
  "Init (test_ext gif_2x2 (\<lambda>name. Inr background_then_none) term_200_50) img0 world0
     = Returns (None,
         \<lparr>Filename = ''a'', ExportFilename = [], LoopCount = 1, DelayMultiplier = Fin 1,
          UserWidth = 0,
          frames = [\<lparr>picture = [[1], [1]], delay = 10\<rparr>, \<lparr>picture = [[2], [0]], delay = 20\<rparr>],
          h = 1, w = 2\<rparr>,
         \<lparr>next_handle = 2, open_handles = []\<rparr>)
   \<and> DelayMultiplier img0 = Fin 1
   \<and> set (gDelay background_then_none) = {10, 20}
   \<and> has_size 2 1 [[1], [1]] \<and> has_size 2 1 [[2], [0]] \<and> (0::int) \<le> 10 \<and> (0::int) \<le> 20"
proof -
  let ?ext = "test_ext gif_2x2 (\<lambda>name. Inr background_then_none) term_200_50"
  let ?img = "\<lparr>Filename = ''a'', ExportFilename = [], LoopCount = 1, DelayMultiplier = Fin 1,
          UserWidth = 0,
          frames = [\<lparr>picture = [[1], [1]], delay = 10\<rparr>, \<lparr>picture = [[2], [0]], delay = 20\<rparr>],
          h = 1, w = 2\<rparr>"
  have run: "Init ?ext img0 world0 = Returns (None, ?img, \<lparr>next_handle = 2, open_handles = []\<rparr>)"
    by code_simp
  have fin: "DelayMultiplier img0 = Fin 1"
    by (simp add: img0_def)
  have ds: "set (gDelay background_then_none) = {10, 20}"
    by (simp add: background_then_none_def)
  have mult: "\<exists>m. DelayMultiplier img0 = Fin m \<and> 0 \<le> m \<and> m * 65535 \<le> 2 ^ 63 - 1024"
    by (simp add: fin)
  have range: "\<forall>g. gif_DecodeAll ?ext (Filename img0) = Inr g
                 \<longrightarrow> (\<forall>d \<in> set (gDelay g). 0 \<le> d \<and> d \<le> 65535)"
    by (simp add: test_ext_def ds)
  from init_frames_sized [OF run] mult range
  have "\<exists>new. frames ?img = frames img0 @ new
          \<and> (\<forall>fr \<in> set new. has_size (w ?img) (h ?img) (picture fr))
          \<and> (\<forall>fr \<in> set new. 0 \<le> delay fr)"
    by blast
  then have "has_size 2 1 [[1], [1]] \<and> has_size 2 1 [[2], [0]] \<and> (0::int) \<le> 10 \<and> (0::int) \<le> 20"
    by (auto simp: img0_def)
  with run fin ds show ?thesis by blast
qed

text \<open>
  Claim C10.  The claim says that the source file is closed right after each decode call,
  also when decoding fails.  When \<^verbatim>\<open>image.Decode\<close> fails the code returns the error at
  line 61, before \<^verbatim>\<open>file.Close()\<close> at line 63: the handle opened at line 55 stays open.
\<close>

theorem init_decode_error_leaves_file_open:
  "Init (test_ext not_an_image no_gif term_200_50) img0 world0
     = Returns (Some ''image: unknown format'', img0, \<lparr>next_handle = 1, open_handles = [0]\<rparr>)"
  by code_simp

text \<open>
  On the successful path the handle is closed: no handle is open after an \<^verbatim>\<open>Init\<close> that
  decoded a picture.
\<close>

lemma init_success_closes_file:
  "Init (test_ext png_3x4 no_gif term_200_50) img0 world0
     = Returns (None,
         \<lparr>Filename = ''a'', ExportFilename = [], LoopCount = 1, DelayMultiplier = Fin 1,
          UserWidth = 0, frames = [\<lparr>picture = [[7, 7], [7, 7], [7, 7]], delay = 0\<rparr>],
          h = 2, w = 3\<rparr>,
         \<lparr>next_handle = 1, open_handles = []\<rparr>)"
  by code_simp

section \<open>Properties of the renderer\<close>

text \<open>On a sink that never fails, a row, a picture and a frame extend the log as expected.\<close>

lemma draw_row_recorder:
  "\<forall>x \<in> set xs. x < length pic \<and> y < length (pic ! x) \<Longrightarrow>
   draw_row (recorder fails) pic y xs lg
     = Go_on (lg @ map (\<lambda>x. OpWrite (cell (pic ! x ! y))) xs)"
  by (induction xs arbitrary: lg) (simp_all add: recorder_def)

lemma draw_rows_recorder:
  "\<forall>y \<in> set ys. \<forall>x < nat wd. x < length pic \<and> y < length (pic ! x) \<Longrightarrow>
   draw_rows (recorder never) pic wd ys lg
     = Go_on (lg @ concat (map (\<lambda>y. map (\<lambda>x. OpWrite (cell (pic ! x ! y))) [0..<nat wd]
                                       @ [OpWrite newline]) ys))"
proof (induction ys arbitrary: lg)
  case Nil
  then show ?case by simp
next
  case (Cons y ys)
  have row: "draw_row (recorder never) pic y [0..<nat wd] lg
               = Go_on (lg @ map (\<lambda>x. OpWrite (cell (pic ! x ! y))) [0..<nat wd])"
    using Cons.prems by (intro draw_row_recorder) simp
  have nl: "Write (recorder never) newline l = (None, l @ [OpWrite newline])" for l
    by (simp add: recorder_def never_def)
  show ?case
    using Cons.IH [of "lg @ map (\<lambda>x. OpWrite (cell (pic ! x ! y))) [0..<nat wd] @ [OpWrite newline]"]
      Cons.prems
    by (simp add: row nl)
qed

lemma draw_picture_recorder:
  assumes "has_size wd ht pic"
  shows "draw_rows (recorder never) pic wd [0..<nat ht] lg = Go_on (lg @ frame_ops wd ht pic)"
proof -
  have "\<forall>y \<in> set [0..<nat ht]. \<forall>x < nat wd. x < length pic \<and> y < length (pic ! x)"
    using assms by (auto simp: has_size_def)
  then show ?thesis
    unfolding frame_ops_def by (rule draw_rows_recorder)
qed

lemma draw_frames_first:
  assumes "has_size wd ht (picture fr)"
  shows "draw_frames (recorder never) wd ht (fr # frs) (False, dl, lg)
           = draw_frames (recorder never) wd ht frs (True, delay fr, lg @ frame_ops wd ht (picture fr))"
  by (simp add: draw_picture_recorder [OF assms])

lemma draw_frames_later:
  assumes "has_size wd ht (picture fr)"
  shows "draw_frames (recorder never) wd ht (fr # frs) (True, dl, lg)
           = draw_frames (recorder never) wd ht frs
               (True, delay fr, lg @ [OpLineUp ht, OpSleep dl] @ frame_ops wd ht (picture fr))"
proof -
  have up: "LineUp (recorder never) ht l = (None, l @ [OpLineUp ht])" for l
    by (simp add: recorder_def never_def)
  have sl: "Sleep (recorder never) dl l = (None, l @ [OpSleep dl])" for l
    by (simp add: recorder_def never_def)
  show ?thesis
    by (simp add: up sl draw_picture_recorder [OF assms])
qed

text \<open>
  Claim C2.  For frames \<open>[f0, f1]\<close> with delays \<open>[d0, d1]\<close> and loop count 2, each picture of
  the resolved size, a sink that never fails observes exactly: the draw of \<open>f0\<close> with no
  sleep before it, cursor-up by the resolved height and \<open>sleep d0\<close>, the draw of \<open>f1\<close>,
  cursor-up and \<open>sleep d1\<close>, the draw of \<open>f0\<close>, cursor-up and \<open>sleep d0\<close>, the draw of \<open>f1\<close>,
  then close: four draws, three sleeps, each sleep with the delay of the frame just shown.
  \<^verbatim>\<open>Draw\<close> returns \<^verbatim>\<open>nil\<close>.
\<close>

theorem draw_two_frames_two_loops:
  assumes "frames img = [\<lparr>picture = f0, delay = d0\<rparr>, \<lparr>picture = f1, delay = d1\<rparr>]"
    and "LoopCount img = 2"
    and "has_size (w img) (h img) f0" and "has_size (w img) (h img) f1"
  shows "Draw (recorder never) img lg =
           (Returns None,
            lg @ frame_ops (w img) (h img) f0 @ [OpLineUp (h img), OpSleep d0]
                @ frame_ops (w img) (h img) f1 @ [OpLineUp (h img), OpSleep d1]
                @ frame_ops (w img) (h img) f0 @ [OpLineUp (h img), OpSleep d0]
                @ frame_ops (w img) (h img) f1 @ [OpClose])"
proof -
  let ?fr0 = "\<lparr>picture = f0, delay = d0\<rparr>" and ?fr1 = "\<lparr>picture = f1, delay = d1\<rparr>"
  have s0: "has_size (w img) (h img) (picture ?fr0)" and s1: "has_size (w img) (h img) (picture ?fr1)"
    using assms by simp_all
  have two: "nat (LoopCount img) = Suc (Suc 0)"
    using assms(2) by simp
  have cl: "Close (recorder never) l = (None, l @ [OpClose])" for l
    by (simp add: recorder_def never_def)
  have pass1: "draw_frames (recorder never) (w img) (h img) [?fr0, ?fr1] (False, 0, lg)
             = Go_on (True, d1, lg @ frame_ops (w img) (h img) f0 @ [OpLineUp (h img), OpSleep d0]
                                   @ frame_ops (w img) (h img) f1)"
    by (simp add: draw_frames_first [OF s0] draw_frames_later [OF s1] del: draw_frames.simps(2))
  have pass2: "draw_frames (recorder never) (w img) (h img) [?fr0, ?fr1] (True, d1, l)
             = Go_on (True, d1, l @ [OpLineUp (h img), OpSleep d1] @ frame_ops (w img) (h img) f0
                                  @ [OpLineUp (h img), OpSleep d0] @ frame_ops (w img) (h img) f1)" for l
    by (simp add: draw_frames_later [OF s0] draw_frames_later [OF s1] del: draw_frames.simps(2))
  show ?thesis
    unfolding Draw_def two assms(1)
    by (simp add: pass1 pass2 cl del: draw_frames.simps)
qed

theorem draw_two_frames_two_loops_witness:
  "frames \<lparr>Filename = ''a.gif'', ExportFilename = [], LoopCount = 2, DelayMultiplier = Fin 1,
           UserWidth = 0,
           frames = [\<lparr>picture = [[1]], delay = 3\<rparr>, \<lparr>picture = [[2]], delay = 4\<rparr>],
           h = 1, w = 1\<rparr>
     = [\<lparr>picture = [[1]], delay = 3\<rparr>, \<lparr>picture = [[2]], delay = 4\<rparr>]
   \<and> has_size 1 1 [[1]] \<and> has_size 1 1 [[2]]
   \<and> Draw (recorder never)
         \<lparr>Filename = ''a.gif'', ExportFilename = [], LoopCount = 2, DelayMultiplier = Fin 1,
          UserWidth = 0,
          frames = [\<lparr>picture = [[1]], delay = 3\<rparr>, \<lparr>picture = [[2]], delay = 4\<rparr>],
          h = 1, w = 1\<rparr> []
       = (Returns None,
          [OpWrite (cell 1), OpWrite newline, OpLineUp 1, OpSleep 3,
           OpWrite (cell 2), OpWrite newline, OpLineUp 1, OpSleep 4,
           OpWrite (cell 1), OpWrite newline, OpLineUp 1, OpSleep 3,
           OpWrite (cell 2), OpWrite newline, OpClose])"
  using draw_two_frames_two_loops
    [of "\<lparr>Filename = ''a.gif'', ExportFilename = [], LoopCount = 2, DelayMultiplier = Fin 1,
          UserWidth = 0,
          frames = [\<lparr>picture = [[1]], delay = 3\<rparr>, \<lparr>picture = [[2]], delay = 4\<rparr>],
          h = 1, w = 1\<rparr>" "[[1]]" 3 "[[2]]" 4 "[]"]
  by (simp add: has_size_def frame_ops_def)

text \<open>
  Claim C5.  The claim says that the failure of any sink operation, the per-pixel writes
  included, ends \<^verbatim>\<open>Draw\<close> with that error.  The code drops the error of the per-pixel
  write (line 186): on a picture of one pixel, with a sink whose first call (the write of
  that pixel) fails, \<^verbatim>\<open>Draw\<close> goes on to write the line terminator, closes the sink and
  returns \<^verbatim>\<open>nil\<close>.
\<close>

theorem draw_pixel_error_dropped:
  "Draw (recorder (\<lambda>n. if n = 0 then Some ''write failed'' else None))
        \<lparr>Filename = ''a.png'', ExportFilename = [], LoopCount = 1, DelayMultiplier = Fin 1,
         UserWidth = 0, frames = [\<lparr>picture = [[7]], delay = 0\<rparr>], h = 1, w = 1\<rparr> []
     = (Returns None, [OpWrite (cell 7), OpWrite newline, OpClose])"
  by (simp add: Draw_def recorder_def)


text \<open>
  The write of the line terminator two lines below is checked: when it is the call that
  fails, \<^verbatim>\<open>Draw\<close> stops there and returns the error.
\<close>

lemma draw_newline_error_returned:
  "Draw (recorder (\<lambda>n. if n = 1 then Some ''write failed'' else None))
        \<lparr>Filename = ''a.png'', ExportFilename = [], LoopCount = 1, DelayMultiplier = Fin 1,
         UserWidth = 0, frames = [\<lparr>picture = [[7]], delay = 0\<rparr>], h = 1, w = 1\<rparr> []
     = (Returns (Some ''write failed''), [OpWrite (cell 7), OpWrite newline])"
  by (simp add: Draw_def recorder_def)

end
